theory Spec2Isabelle
  imports Main "HOL-Library.Sublist"
begin

section \<open>The AWS icon catalog of \<open>search-aws-icons.tsx\<close>\<close>

text \<open>
  The extension reads the manifest \<open>find.txt\<close> of an asset directory, turns every file
  entry into an icon (name, category, type, format), merges the formats of one icon into
  one record, and copies the file of a chosen icon to the clipboard.

  JavaScript strings are modelled as \<open>string\<close>: a list of characters, whose length is
  the number of characters, as \<open>str.length\<close> counts code units. The file system, the
  clipboard and \<open>path.join\<close> belong to the host; they are the fields of the record
  \<open>env\<close>. A rejected promise is a value of the type \<open>fs_error\<close>. The calls of
  \<open>console.log\<close> have no effect on any result and are left out.
\<close>

subsection \<open>String operations of the host language\<close>

text \<open>\<open>str.split(sep)\<close> for a separator of one character: never an empty array.\<close>

fun split :: "char \<Rightarrow> string \<Rightarrow> string list" where
  "split sep [] = [[]]"
| "split sep (c # cs) =
     (if c = sep then [] # split sep cs
      else (case split sep cs of [] \<Rightarrow> [[c]] | p # ps \<Rightarrow> (c # p) # ps))"

text \<open>\<open>arr.join(sep)\<close>.\<close>

fun join :: "string \<Rightarrow> string list \<Rightarrow> string" where
  "join sep [] = []"
| "join sep [p] = p"
| "join sep (p # q # ps) = p @ sep @ join sep (q # ps)"

text \<open>\<open>arr.pop()\<close>: the last element (\<open>undefined\<close>, here \<open>None\<close>, on an empty array)
  and the array without it.\<close>

definition pop :: "'a list \<Rightarrow> 'a option \<times> 'a list" where
  "pop xs = (if xs = [] then (None, []) else (Some (last xs), butlast xs))"

text \<open>\<open>str.includes(pat)\<close>: case-sensitive substring search.\<close>

fun includes_str :: "string \<Rightarrow> string \<Rightarrow> bool" where
  "includes_str [] pat = (pat = [])"
| "includes_str (c # cs) pat = (prefix pat (c # cs) \<or> includes_str cs pat)"

text \<open>\<open>str.startsWith(pat)\<close>.\<close>

definition startsWith :: "string \<Rightarrow> string \<Rightarrow> bool" where
  "startsWith str pat = prefix pat str"

text \<open>\<open>str.trim()\<close>: white space and line terminators removed at both ends.\<close>

definition isWhiteSpace :: "char \<Rightarrow> bool" where
  "isWhiteSpace c = (c \<in> set [CHR 0x09, CHR 0x0A, CHR 0x0B, CHR 0x0C, CHR 0x0D, CHR 0x20, CHR 0xA0])"

definition trim :: "string \<Rightarrow> string" where
  "trim str = rev (dropWhile isWhiteSpace (rev (dropWhile isWhiteSpace str)))"

text \<open>\<open>str.toUpperCase()\<close> on the letters a to z.\<close>

definition upperChar :: "char \<Rightarrow> char" where
  "upperChar c =
     (let n = (of_char c :: nat) in if 97 \<le> n \<and> n \<le> 122 then char_of (n - 32) else c)"

definition toUpperCase :: "string \<Rightarrow> string" where
  "toUpperCase str = map upperChar str"

subsection \<open>Data model\<close>

datatype icon_type = Architecture | Resource | Category | Architecture_Group

record AWSIcon =
  name :: string
  category :: string
  type :: icon_type
  formats :: "string list"
  path :: string

datatype fs_error = AccessFailed string | ReadFailed string | StatFailed string | CopyFailed string

text \<open>
  The host: \<open>dirname\<close> is \<open>__dirname\<close>; \<open>path_join\<close> is \<open>path.join\<close>;
  \<open>fs_access p\<close> holds when \<open>fs.access(p)\<close> resolves; \<open>fs_readFile p\<close> is the
  text of the file, \<open>None\<close> when \<open>fs.readFile\<close> rejects; \<open>fs_stat p\<close> is
  \<open>Some (isFile)\<close>, \<open>None\<close> when \<open>fs.stat\<close> rejects; \<open>clipboard_copy p\<close> holds
  when \<open>Clipboard.copy({ file: p })\<close> resolves.
\<close>

record env =
  dirname :: string
  path_join :: "string list \<Rightarrow> string"
  fs_access :: "string \<Rightarrow> bool"
  fs_readFile :: "string \<Rightarrow> string option"
  fs_stat :: "string \<Rightarrow> bool option"
  clipboard_copy :: "string \<Rightarrow> bool"

definition ASSET_DIR :: string where
  "ASSET_DIR = ''Asset-Package_06072024.b5d9f0b1179c4a995a3f1e42042defabb0ba0fd2''"

subsection \<open>Parsing one manifest entry\<close>

definition getTypeFromCategory :: "string \<Rightarrow> icon_type" where
  "getTypeFromCategory cat =
     (if includes_str cat ''Arch'' then Architecture
      else if includes_str cat ''Res'' then Resource
      else if includes_str cat ''Cat'' then Category
      else Architecture_Group)"

text \<open>The result is the pair \<open>{ icon, format }\<close>; \<open>None\<close> is \<open>null\<close>.\<close>

definition extractIconData :: "string \<Rightarrow> string \<Rightarrow> AWSIcon option \<times> string" where
  "extractIconData item itemPath =
     (let parts = split CHR ''/'' item in
      if length parts < 3 then (None, [])
      else
        let cat = parts ! 1;
            filename = parts ! (length parts - 1);
            (fmt, nameParts) = pop (split CHR ''.'' filename);
            nm = join ''.'' nameParts
        in (case fmt of
              None \<Rightarrow> (None, [])
            | Some format \<Rightarrow>
                if format = [] \<or> nm = [] then (None, [])
                else (Some \<lparr>name = nm, category = cat, type = getTypeFromCategory cat,
                            formats = [], path = itemPath\<rparr>, format)))"

subsection \<open>Loading the catalog\<close>

text \<open>The test of \<open>icons.find\<close>: same name, category and type.\<close>

definition same_icon :: "AWSIcon \<Rightarrow> AWSIcon \<Rightarrow> bool" where
  "same_icon icon i = (name i = name icon \<and> category i = category icon \<and> type i = type icon)"

text \<open>
  \<open>existingIcon\<close> is a reference to the first element of \<open>icons\<close> that passes the
  test, so a push to its formats changes that element of the array.
\<close>

fun update_first :: "('a \<Rightarrow> bool) \<Rightarrow> ('a \<Rightarrow> 'a) \<Rightarrow> 'a list \<Rightarrow> 'a list" where
  "update_first P f [] = []"
| "update_first P f (x # xs) = (if P x then f x # xs else x # update_first P f xs)"

definition push_format :: "string \<Rightarrow> AWSIcon \<Rightarrow> AWSIcon" where
  "push_format format i = i\<lparr>formats := formats i @ [format]\<rparr>"

text \<open>The body of \<open>if (icon) { ... }\<close>: the state of \<open>icons\<close> after it.\<close>

definition add_icon :: "AWSIcon \<Rightarrow> string \<Rightarrow> AWSIcon list \<Rightarrow> AWSIcon list" where
  "add_icon icon format icons =
     (case find (same_icon icon) icons of
        Some existingIcon \<Rightarrow>
          if format \<in> set (formats existingIcon) then icons
          else update_first (same_icon icon) (push_format format) icons
      | None \<Rightarrow> icons @ [push_format format icon])"

text \<open>
  The loop \<open>for (const item of items)\<close>, from the state \<open>icons\<close>. The result is the
  error that left the loop, if any, and the state of \<open>icons\<close> at that moment.
\<close>

fun load_items :: "env \<Rightarrow> string \<Rightarrow> string list \<Rightarrow> AWSIcon list \<Rightarrow> fs_error option \<times> AWSIcon list" where
  "load_items e baseDir [] icons = (None, icons)"
| "load_items e baseDir (item # items) icons =
     (if \<not> startsWith item ''.'' then load_items e baseDir items icons
      else
        let itemPath = path_join e [baseDir, item] in
        case fs_stat e itemPath of
          None \<Rightarrow> (Some (StatFailed itemPath), icons)
        | Some isFile \<Rightarrow>
            if isFile then
              (case extractIconData item itemPath of
                 (Some icon, format) \<Rightarrow> load_items e baseDir items (add_icon icon format icons)
               | (None, format) \<Rightarrow> load_items e baseDir items icons)
            else load_items e baseDir items icons)"

definition baseDir :: "env \<Rightarrow> string" where
  "baseDir e = path_join e [dirname e, ''assets'', ASSET_DIR]"

definition listFilePath :: "env \<Rightarrow> string" where
  "listFilePath e = path_join e [baseDir e, ''find.txt'']"

text \<open>The items of a manifest text: its lines that are not blank.\<close>

definition manifest_items :: "string \<Rightarrow> string list" where
  "manifest_items listFileContent = filter (\<lambda>item. trim item \<noteq> []) (split CHR 0x0A listFileContent)"

text \<open>The body of the \<open>try\<close> block, from the empty array.\<close>

definition load_try :: "env \<Rightarrow> fs_error option \<times> AWSIcon list" where
  "load_try e =
     (if \<not> fs_access e (baseDir e) then (Some (AccessFailed (baseDir e)), [])
      else
        case fs_readFile e (listFilePath e) of
          None \<Rightarrow> (Some (ReadFailed (listFilePath e)), [])
        | Some listFileContent \<Rightarrow> load_items e (baseDir e) (manifest_items listFileContent) [])"

text \<open>
  \<open>loadIconsData\<close>: \<open>Inr\<close> is the value of the promise, \<open>Inl\<close> a rejection. The
  \<open>catch\<close> block takes every error of the \<open>try\<close> block, and \<open>return icons\<close>
  follows in both cases.
\<close>

definition loadIconsData :: "env \<Rightarrow> fs_error + AWSIcon list" where
  "loadIconsData e =
     (case load_try e of
        (None, icons) \<Rightarrow> Inr icons
      | (Some error, icons) \<Rightarrow> Inr icons)"

subsection \<open>The command: view state, copy action, cell title\<close>

datatype toast_style = Success | Failure

record toast =
  style :: toast_style
  title :: string
  message :: string

text \<open>
  The state the command works on: the three \<open>useState\<close> cells, the file on the system
  clipboard, and the toasts shown so far.
\<close>

record view =
  icons :: "AWSIcon list"
  isLoading :: bool
  error :: "string option"
  clipboard :: "string option"
  toasts :: "toast list"

definition fetchIcons :: "env \<Rightarrow> view \<Rightarrow> view" where
  "fetchIcons e v =
     (case loadIconsData e of
        Inr iconsData \<Rightarrow> v\<lparr>icons := iconsData, isLoading := False\<rparr>
      | Inl err \<Rightarrow> v\<lparr>error := Some ''Failed to load icons data'', isLoading := False\<rparr>)"

text \<open>The format argument has the type \<open>"png" | "svg"\<close>.\<close>

datatype copy_format = Png | Svg

fun format_text :: "copy_format \<Rightarrow> string" where
  "format_text Png = ''png''"
| "format_text Svg = ''svg''"

text \<open>The two calls of \<open>showToast\<close> in \<open>copyIconToClipboard\<close>.\<close>

definition success_toast :: "copy_format \<Rightarrow> toast" where
  "success_toast format =
     \<lparr>style = Success,
      title = toUpperCase (format_text format) @ '' icon copied to clipboard'',
      message = ''Paste it wherever you need.''\<rparr>"

definition failure_toast :: "copy_format \<Rightarrow> toast" where
  "failure_toast format =
     \<lparr>style = Failure,
      title = ''Failed to copy '' @ toUpperCase (format_text format) @ '' icon to clipboard'',
      message = ''The icon file might not exist or be accessible.''\<rparr>"

text \<open>
  \<open>copyIconToClipboard\<close>: the error that the \<open>catch\<close> block took, if any, and the
  view after the call.
\<close>

definition copyIconToClipboard :: "env \<Rightarrow> AWSIcon \<Rightarrow> copy_format \<Rightarrow> view \<Rightarrow> fs_error option \<times> view" where
  "copyIconToClipboard e icon format v =
     (if \<not> fs_access e (path icon) then
        (Some (AccessFailed (path icon)), v\<lparr>toasts := toasts v @ [failure_toast format]\<rparr>)
      else if \<not> clipboard_copy e (path icon) then
        (Some (CopyFailed (path icon)), v\<lparr>toasts := toasts v @ [failure_toast format]\<rparr>)
      else
        (None, v\<lparr>clipboard := Some (path icon), toasts := toasts v @ [success_toast format]\<rparr>))"

definition truncate :: "string \<Rightarrow> nat \<Rightarrow> string" where
  "truncate str maxLength =
     (if length str \<le> maxLength then str else take maxLength str @ ''...'')"

text \<open>The title of the grid cell of an icon.\<close>

definition cell_title :: "AWSIcon \<Rightarrow> string" where
  "cell_title icon = truncate (name icon) 20"

subsection \<open>Notions of the specification\<close>

text \<open>The triple that identifies a logical icon.\<close>

definition key :: "AWSIcon \<Rightarrow> string \<times> string \<times> icon_type" where
  "key i = (name i, category i, type i)"

text \<open>The elements of a list in the order of their first appearance, each once.\<close>

fun first_appearances :: "'a list \<Rightarrow> 'a list" where
  "first_appearances [] = []"
| "first_appearances (x # xs) = x # first_appearances (filter (\<lambda>y. y \<noteq> x) xs)"

text \<open>An entry whose stat fails: it has the marker, and \<open>fs.stat\<close> rejects its path.\<close>

definition stat_fails :: "env \<Rightarrow> string \<Rightarrow> string \<Rightarrow> bool" where
  "stat_fails e b item = (startsWith item ''.'' \<and> fs_stat e (path_join e [b, item]) = None)"

text \<open>The entries of a manifest before the first one whose stat fails.\<close>

definition entries_read :: "env \<Rightarrow> string \<Rightarrow> string list \<Rightarrow> string list" where
  "entries_read e b items = takeWhile (\<lambda>item. \<not> stat_fails e b item) items"

text \<open>
  A valid file entry: it has the marker, its path is a file on the disk, and its name and
  format are not empty. The value is the icon and the format of the entry.
\<close>

definition file_entry :: "env \<Rightarrow> string \<Rightarrow> string \<Rightarrow> (AWSIcon \<times> string) option" where
  "file_entry e b item =
     (if startsWith item ''.'' \<and> fs_stat e (path_join e [b, item]) = Some True then
        (case extractIconData item (path_join e [b, item]) of
           (Some icon, format) \<Rightarrow> Some (icon, format)
         | (None, format) \<Rightarrow> None)
      else None)"

definition file_entries :: "env \<Rightarrow> string \<Rightarrow> string list \<Rightarrow> (AWSIcon \<times> string) list" where
  "file_entries e b items = List.map_filter (file_entry e b) items"

text \<open>The valid file entries that a load pass over a manifest text reaches.\<close>

definition accepted :: "env \<Rightarrow> string \<Rightarrow> (AWSIcon \<times> string) list" where
  "accepted e listFileContent =
     file_entries e (baseDir e) (entries_read e (baseDir e) (manifest_items listFileContent))"

text \<open>The state of the array after a sequence of entries.\<close>

definition add_all :: "(AWSIcon \<times> string) list \<Rightarrow> AWSIcon list \<Rightarrow> AWSIcon list" where
  "add_all es ics = foldl (\<lambda>acc (icon, format). add_icon icon format acc) ics es"

text \<open>The record that a catalog holds for a triple: the first one with that triple.\<close>

definition record_of :: "AWSIcon list \<Rightarrow> string \<times> string \<times> icon_type \<Rightarrow> AWSIcon option" where
  "record_of ics k = find (\<lambda>r. key r = k) ics"

text \<open>The first entry of a sequence for a triple, and the formats of its entries for it.\<close>

definition first_entry :: "(AWSIcon \<times> string) list \<Rightarrow> string \<times> string \<times> icon_type \<Rightarrow> (AWSIcon \<times> string) option" where
  "first_entry es k = find (\<lambda>(i, f). key i = k) es"

definition formats_seen :: "(AWSIcon \<times> string) list \<Rightarrow> string \<times> string \<times> icon_type \<Rightarrow> string list" where
  "formats_seen es k = first_appearances (map snd (filter (\<lambda>(i, f). key i = k) es))"

subsection \<open>Example hosts\<close>

text \<open>
  \<open>path.join\<close> on POSIX paths without \<open>..\<close> segments: the segments that are empty
  or \<open>.\<close> disappear.
\<close>

definition posix_join :: "string list \<Rightarrow> string" where
  "posix_join ps =
     (if ps \<noteq> [] \<and> startsWith (hd ps) ''/'' then ''/'' else []) @
     join ''/'' (filter (\<lambda>seg. seg \<noteq> [] \<and> seg \<noteq> ''.'') (concat (map (split CHR ''/'') ps)))"

definition assets :: string where
  "assets = ''/ext/assets/Asset-Package_06072024.b5d9f0b1179c4a995a3f1e42042defabb0ba0fd2''"

text \<open>
  A host with the extension in \<open>/ext\<close>: its asset directory holds the given files and
  directories (paths below the asset directory) and, if any, the manifest text.
\<close>

definition disk :: "string list \<Rightarrow> string list \<Rightarrow> string option \<Rightarrow> env" where
  "disk files dirs manifest =
     \<lparr>dirname = ''/ext'',
      path_join = posix_join,
      fs_access = (\<lambda>p. p = assets \<or> p \<in> set (map (\<lambda>f. assets @ ''/'' @ f) (files @ dirs))),
      fs_readFile = (\<lambda>p. if p = assets @ ''/find.txt'' then manifest else None),
      fs_stat = (\<lambda>p. if p \<in> set (map (\<lambda>f. assets @ ''/'' @ f) files) then Some True
                      else if p = assets \<or> p \<in> set (map (\<lambda>f. assets @ ''/'' @ f) dirs) then Some False
                      else None),
      clipboard_copy = (\<lambda>p. True)\<rparr>"

text \<open>
  An example: a manifest as \<open>find\<close> prints it, with the directory itself, the
  directories, the manifest file and three icon files, and the disk it describes.
\<close>

definition example_manifest :: string where
  "example_manifest =
     ''.\<newline>./find.txt\<newline>./Res_Compute\<newline>./Res_Compute/48\<newline>./Res_Compute/48/Amazon-EC2.png\<newline>./Arch_Storage/64/Amazon-S3.png\<newline>./Res_Compute/48/Amazon-EC2.svg\<newline>''"

definition example_host :: env where
  "example_host =
     disk [''find.txt'', ''Res_Compute/48/Amazon-EC2.png'', ''Res_Compute/48/Amazon-EC2.svg'',
           ''Arch_Storage/64/Amazon-S3.png'']
          [''Res_Compute'', ''Res_Compute/48'', ''Arch_Storage'', ''Arch_Storage/64'']
          (Some example_manifest)"

text \<open>The same disk with another manifest text.\<close>

definition host_with :: "string \<Rightarrow> env" where
  "host_with manifest =
     example_host\<lparr>fs_readFile := \<lambda>p. if p = assets @ ''/find.txt'' then Some manifest else None\<rparr>"

text \<open>The records of the two icons of the example, with the given formats.\<close>

definition ec2 :: "string list \<Rightarrow> AWSIcon" where
  "ec2 fs = \<lparr>name = ''Amazon-EC2'', category = ''Res_Compute'', type = Resource, formats = fs,
             path = assets @ ''/Res_Compute/48/Amazon-EC2.png''\<rparr>"

definition s3 :: "string list \<Rightarrow> AWSIcon" where
  "s3 fs = \<lparr>name = ''Amazon-S3'', category = ''Arch_Storage'', type = Architecture, formats = fs,
            path = assets @ ''/Arch_Storage/64/Amazon-S3.png''\<rparr>"

section \<open>Properties\<close>

subsection \<open>Strings\<close>

lemma split_not_Nil: "split sep s \<noteq> []"
  by (induction s) (auto split: list.splits)

lemma includes_str_iff: "includes_str s pat \<longleftrightarrow> (\<exists>p q. s = p @ pat @ q)"
proof (induction s)
  case Nil
  then show ?case by auto
next
  case (Cons c cs)
  show ?case
  proof
    assume "includes_str (c # cs) pat"
    then consider "prefix pat (c # cs)" | "includes_str cs pat" by auto
    then show "\<exists>p q. c # cs = p @ pat @ q"
    proof cases
      case 1
      then obtain q where "c # cs = pat @ q" by (auto simp: prefix_def)
      then have "c # cs = [] @ pat @ q" by simp
      then show ?thesis by blast
    next
      case 2
      with Cons obtain p q where "cs = p @ pat @ q" by blast
      then have "c # cs = (c # p) @ pat @ q" by simp
      then show ?thesis by blast
    qed
  next
    assume "\<exists>p q. c # cs = p @ pat @ q"
    then obtain p q where pq: "c # cs = p @ pat @ q" by blast
    show "includes_str (c # cs) pat"
    proof (cases p)
      case Nil
      with pq have "prefix pat (c # cs)" by (simp add: prefix_def)
      then show ?thesis by simp
    next
      case (Cons a p')
      with pq have "cs = p' @ pat @ q" by simp
      with Cons.IH have "includes_str cs pat" by blast
      then show ?thesis by simp
    qed
  qed
qed

subsection \<open>The order of first appearance\<close>

lemma set_first_appearances: "set (first_appearances xs) = set xs"
  by (induction xs rule: first_appearances.induct) auto

lemma distinct_first_appearances: "distinct (first_appearances xs)"
  by (induction xs rule: first_appearances.induct) (auto simp: set_first_appearances)

lemma first_appearances_snoc:
  "first_appearances (xs @ [x]) =
     (if x \<in> set xs then first_appearances xs else first_appearances xs @ [x])"
  by (induction xs rule: first_appearances.induct) auto

lemma length_first_appearances: "length (first_appearances xs) = card (set xs)"
  using distinct_card [OF distinct_first_appearances, of xs]
  by (simp add: set_first_appearances)

subsection \<open>One entry\<close>

lemma same_icon_key: "same_icon icon i \<longleftrightarrow> key i = key icon"
  by (simp add: same_icon_def key_def)

lemma add_icon_Nil: "add_icon icon f [] = [push_format f icon]"
  by (simp add: add_icon_def)

lemma add_icon_Cons:
  "add_icon icon f (i # is) =
     (if same_icon icon i then (if f \<in> set (formats i) then i # is else push_format f i # is)
      else i # add_icon icon f is)"
  by (auto simp: add_icon_def split: option.splits)

lemma key_push_format: "key (push_format f i) = key i"
  by (simp add: key_def push_format_def)

lemma map_key_add_icon:
  "map key (add_icon icon f ics) =
     (if key icon \<in> set (map key ics) then map key ics else map key ics @ [key icon])"
  by (induction ics) (auto simp: add_icon_Nil add_icon_Cons key_push_format same_icon_key)

lemma record_of_add_icon:
  "record_of (add_icon icon f ics) k =
     (if k = key icon then
        Some (case record_of ics k of
                None \<Rightarrow> push_format f icon
              | Some r \<Rightarrow> if f \<in> set (formats r) then r else push_format f r)
      else record_of ics k)"
  by (induction ics)
     (auto simp: record_of_def add_icon_Nil add_icon_Cons key_push_format same_icon_key)

lemma record_of_member:
  "distinct (map key ics) \<Longrightarrow> r \<in> set ics \<Longrightarrow> record_of ics (key r) = Some r"
  by (induction ics) (auto simp: record_of_def)

lemma record_of_None: "record_of ics k = None \<longleftrightarrow> k \<notin> set (map key ics)"
  by (auto simp: record_of_def find_None_iff)

subsection \<open>A sequence of entries\<close>

lemma add_all_snoc: "add_all (es @ [(icon, f)]) ics = add_icon icon f (add_all es ics)"
  by (simp add: add_all_def)

lemma add_all_Nil: "add_all [] ics = ics"
  by (simp add: add_all_def)

lemma add_all_Cons: "add_all ((icon, f) # es) ics = add_all es (add_icon icon f ics)"
  by (simp add: add_all_def)

lemma map_key_add_all:
  "map key (add_all es []) = first_appearances (map (key \<circ> fst) es)"
proof (induction es rule: rev_induct)
  case Nil
  then show ?case by (simp add: add_all_Nil)
next
  case (snoc x es)
  obtain icon f where x: "x = (icon, f)" by (cases x)
  have "set (map key (add_all es [])) = set (map (key \<circ> fst) es)"
    using snoc by (simp add: set_first_appearances)
  then show ?case
    using snoc by (simp add: x add_all_snoc map_key_add_icon first_appearances_snoc)
qed

lemma distinct_add_all: "distinct (map key (add_all es []))"
  by (simp add: map_key_add_all distinct_first_appearances)


lemma find_snoc:
  "find P (xs @ [x]) = (case find P xs of None \<Rightarrow> (if P x then Some x else None) | Some y \<Rightarrow> Some y)"
  by (induction xs) auto

lemma first_entry_None: "first_entry es k = None \<Longrightarrow> filter (\<lambda>(i, f). key i = k) es = []"
  by (auto simp: first_entry_def find_None_iff filter_empty_conv)

lemma record_of_add_all:
  assumes "\<forall>(i, f) \<in> set es. formats i = []"
  shows "record_of (add_all es []) k =
           (case first_entry es k of
              None \<Rightarrow> None
            | Some (i, f) \<Rightarrow> Some (i\<lparr>formats := formats_seen es k\<rparr>))"
  using assms
proof (induction es rule: rev_induct)
  case Nil
  then show ?case by (simp add: add_all_Nil record_of_def first_entry_def)
next
  case (snoc x es)
  obtain icon g where x: "x = (icon, g)" by (cases x)
  from snoc.prems have empty: "formats icon = []" and rest: "\<forall>(i, f) \<in> set es. formats i = []"
    by (auto simp: x)
  note IH = snoc.IH [OF rest]
  show ?case
  proof (cases "k = key icon")
    case False
    then show ?thesis
      using IH by (simp add: x add_all_snoc record_of_add_icon first_entry_def find_snoc
          formats_seen_def split: option.splits)
  next
    case True
    show ?thesis
    proof (cases "first_entry es k")
      case None
      then have "record_of (add_all es []) k = None" using IH by simp
      moreover have "filter (\<lambda>(i, f). key i = k) es = []" using None by (rule first_entry_None)
      moreover have "first_entry (es @ [x]) k = Some (icon, g)"
        using None True by (simp add: first_entry_def find_snoc x)
      ultimately show ?thesis
        using True empty
        by (simp add: x add_all_snoc record_of_add_icon formats_seen_def push_format_def)
    next
      case (Some a)
      obtain i f where a: "a = (i, f)" by (cases a)
      have before: "record_of (add_all es []) k = Some (i\<lparr>formats := formats_seen es k\<rparr>)"
        using IH Some by (simp add: a)
      have first: "first_entry (es @ [x]) k = Some (i, f)"
        using Some by (simp add: first_entry_def find_snoc a)
      have seen: "formats_seen (es @ [x]) k =
          (if g \<in> set (formats_seen es k) then formats_seen es k else formats_seen es k @ [g])"
        using True by (simp add: formats_seen_def x first_appearances_snoc set_first_appearances)
      show ?thesis
        using True before first seen
        by (simp add: x add_all_snoc record_of_add_icon push_format_def)
    qed
  qed
qed

subsection \<open>The loop\<close>

lemma load_items_eq:
  "load_items e b items ics =
     ((case dropWhile (\<lambda>item. \<not> stat_fails e b item) items of
         [] \<Rightarrow> None
       | bad # rest \<Rightarrow> Some (StatFailed (path_join e [b, bad]))),
      add_all (file_entries e b (entries_read e b items)) ics)"
proof (induction items arbitrary: ics)
  case Nil
  then show ?case by (simp add: entries_read_def file_entries_def add_all_Nil)
next
  case (Cons item items)
  show ?case
  proof (cases "startsWith item ''.''")
    case False
    then show ?thesis
      using Cons
      by (simp add: entries_read_def file_entries_def stat_fails_def file_entry_def)
  next
    case True
    show ?thesis
    proof (cases "fs_stat e (path_join e [b, item])")
      case None
      then show ?thesis
        using True
        by (simp add: entries_read_def file_entries_def stat_fails_def add_all_Nil)
    next
      case (Some isFile)
      then show ?thesis
        using True Cons
        by (auto simp: entries_read_def file_entries_def stat_fails_def file_entry_def
            add_all_Cons split: prod.splits option.splits)
    qed
  qed
qed


subsection \<open>Classification\<close>

text \<open>
  Claim C2. The type of a category is found by case-sensitive substring containment, in
  this order: a category that contains \<open>Arch\<close> is an Architecture; otherwise one that
  contains \<open>Res\<close> is a Resource; otherwise one that contains \<open>Cat\<close> is a Category;
  every other one is an Architecture Group. The first rule that matches wins, so the
  category \<open>Arch-Group-1\<close> is an Architecture.
\<close>

theorem getTypeFromCategory_first_match:
  "getTypeFromCategory cat =
     (if \<exists>p q. cat = p @ ''Arch'' @ q then Architecture
      else if \<exists>p q. cat = p @ ''Res'' @ q then Resource
      else if \<exists>p q. cat = p @ ''Cat'' @ q then Category
      else Architecture_Group)
   \<and> getTypeFromCategory ''Arch-Group-1'' = Architecture"
proof
  show "getTypeFromCategory cat =
     (if \<exists>p q. cat = p @ ''Arch'' @ q then Architecture
      else if \<exists>p q. cat = p @ ''Res'' @ q then Resource
      else if \<exists>p q. cat = p @ ''Cat'' @ q then Category
      else Architecture_Group)"
    unfolding getTypeFromCategory_def includes_str_iff by (rule refl)
  show "getTypeFromCategory ''Arch-Group-1'' = Architecture"
    by (simp add: getTypeFromCategory_def)
qed

text \<open>
  The rules at work: a category with both \<open>Res\<close> and \<open>Arch\<close>, one with \<open>Res\<close> and
  \<open>Cat\<close>, one with \<open>Cat\<close> only, one with none, and one that has \<open>arch\<close> in lower
  case only.
\<close>

theorem getTypeFromCategory_first_match_witness:
  "getTypeFromCategory ''Res_Arch'' = Architecture
   \<and> getTypeFromCategory ''Cat_Res'' = Resource
   \<and> getTypeFromCategory ''Category-Icons'' = Category
   \<and> getTypeFromCategory ''Groups'' = Architecture_Group
   \<and> getTypeFromCategory ''arch'' = Architecture_Group
   \<and> (\<exists>p q. ''Res_Arch'' = p @ ''Arch'' @ q)"
proof -
  have "\<exists>p q. ''Res_Arch'' = p @ ''Arch'' @ q"
  proof (intro exI)
    show "''Res_Arch'' = ''Res_'' @ ''Arch'' @ []" by simp
  qed
  moreover have "getTypeFromCategory ''Res_Arch'' = Architecture"
    using getTypeFromCategory_first_match [of "''Res_Arch''"] calculation by simp
  moreover have "getTypeFromCategory ''Cat_Res'' = Resource"
    "getTypeFromCategory ''Category-Icons'' = Category"
    "getTypeFromCategory ''Groups'' = Architecture_Group"
    "getTypeFromCategory ''arch'' = Architecture_Group"
    by (simp_all add: getTypeFromCategory_def)
  ultimately show ?thesis by blast
qed

subsection \<open>Failures of the load\<close>

lemma manifest_items_empty: "manifest_items [] = []"
  by (simp add: manifest_items_def trim_def)

lemma loadIconsData_total: "\<exists>catalog. loadIconsData e = Inr catalog"
  by (simp add: loadIconsData_def split: prod.splits option.splits)

lemma loadIconsData_loaded:
  assumes "fs_access e (baseDir e)" and "fs_readFile e (listFilePath e) = Some content"
  shows "loadIconsData e = Inr (add_all (accepted e content) [])"
  using assms
  by (simp add: loadIconsData_def load_try_def load_items_eq accepted_def
      split: prod.splits option.splits)

text \<open>
  Claim C4. When the base directory cannot be accessed, when the manifest cannot be read,
  or when the manifest has no item (the empty text among them), \<open>loadIconsData\<close>
  returns the empty catalog. On every host it returns a catalog and never rejects, so the
  \<open>catch\<close> block of its caller \<open>fetchIcons\<close> never sets the error of the view.
\<close>

theorem loadIconsData_failure_empty:
  "((\<not> fs_access e (baseDir e)
      \<or> fs_readFile e (listFilePath e) = None
      \<or> (\<exists>content. fs_readFile e (listFilePath e) = Some content \<and> manifest_items content = []))
     \<longrightarrow> loadIconsData e = Inr [])
   \<and> manifest_items [] = []
   \<and> (\<exists>catalog. loadIconsData e' = Inr catalog)
   \<and> error (fetchIcons e' v) = error v"
proof (intro conjI impI)
  assume "\<not> fs_access e (baseDir e)
      \<or> fs_readFile e (listFilePath e) = None
      \<or> (\<exists>content. fs_readFile e (listFilePath e) = Some content \<and> manifest_items content = [])"
  then show "loadIconsData e = Inr []"
    by (auto simp: loadIconsData_def load_try_def)
next
  show "manifest_items [] = []" by (rule manifest_items_empty)
next
  show "\<exists>catalog. loadIconsData e' = Inr catalog" by (rule loadIconsData_total)
next
  obtain catalog where "loadIconsData e' = Inr catalog"
    using loadIconsData_total by blast
  then show "error (fetchIcons e' v) = error v"
    by (simp add: fetchIcons_def)
qed

text \<open>
  Three hosts: one without the asset directory, one with the directory and no manifest,
  one with an empty manifest.
\<close>

theorem loadIconsData_failure_empty_witness:
  "\<not> fs_access (disk [] [] None\<lparr>fs_access := \<lambda>p. False\<rparr>) (baseDir (disk [] [] None\<lparr>fs_access := \<lambda>p. False\<rparr>))
   \<and> loadIconsData (disk [] [] None\<lparr>fs_access := \<lambda>p. False\<rparr>) = Inr []
   \<and> fs_readFile (disk [] [] None) (listFilePath (disk [] [] None)) = None
   \<and> loadIconsData (disk [] [] None) = Inr []
   \<and> fs_readFile (disk [''find.txt''] [] (Some [])) (listFilePath (disk [''find.txt''] [] (Some []))) = Some []
   \<and> loadIconsData (disk [''find.txt''] [] (Some [])) = Inr []"
proof -
  have a: "\<not> fs_access (disk [] [] None\<lparr>fs_access := \<lambda>p. False\<rparr>) (baseDir (disk [] [] None\<lparr>fs_access := \<lambda>p. False\<rparr>))"
    by simp
  have b: "fs_readFile (disk [] [] None) (listFilePath (disk [] [] None)) = None"
    by (simp add: disk_def)
  have c: "fs_readFile (disk [''find.txt''] [] (Some [])) (listFilePath (disk [''find.txt''] [] (Some []))) = Some []"
    by code_simp
  have c': "\<exists>content. fs_readFile (disk [''find.txt''] [] (Some [])) (listFilePath (disk [''find.txt''] [] (Some []))) = Some content
      \<and> manifest_items content = []"
    using c manifest_items_empty by simp
  show ?thesis
    using a b c c'
      loadIconsData_failure_empty [of "disk [] [] None\<lparr>fs_access := \<lambda>p. False\<rparr>"]
      loadIconsData_failure_empty [of "disk [] [] None"]
      loadIconsData_failure_empty [of "disk [''find.txt''] [] (Some [])"]
    by blast
qed

subsection \<open>The copy action\<close>

text \<open>
  Claim C6. When the path of an icon cannot be accessed, \<open>copyIconToClipboard\<close> ends
  in its \<open>catch\<close> block with the access error of that path: it shows one toast, of the
  failure style, and no success toast, and it changes neither the icons of the view nor
  the clipboard. The access is tried once.
\<close>

theorem copyIconToClipboard_missing_file:
  assumes "\<not> fs_access e (path icon)"
  shows "copyIconToClipboard e icon format v =
           (Some (AccessFailed (path icon)), v\<lparr>toasts := toasts v @ [failure_toast format]\<rparr>)
         \<and> style (failure_toast format) = Failure
         \<and> filter (\<lambda>t. style t = Success) (toasts (snd (copyIconToClipboard e icon format v)))
             = filter (\<lambda>t. style t = Success) (toasts v)
         \<and> icons (snd (copyIconToClipboard e icon format v)) = icons v
         \<and> clipboard (snd (copyIconToClipboard e icon format v)) = clipboard v"
  using assms by (simp add: copyIconToClipboard_def failure_toast_def)

theorem copyIconToClipboard_missing_file_witness:
  "\<not> fs_access (disk [] [] None) (path \<lparr>name = ''Amazon-EC2'', category = ''Res_Compute'', type = Resource,
        formats = [''png''], path = assets @ ''/Res_Compute/48/Amazon-EC2.png''\<rparr>)
   \<and> copyIconToClipboard (disk [] [] None)
        \<lparr>name = ''Amazon-EC2'', category = ''Res_Compute'', type = Resource,
          formats = [''png''], path = assets @ ''/Res_Compute/48/Amazon-EC2.png''\<rparr> Png
        \<lparr>icons = [], isLoading = False, error = None, clipboard = None, toasts = []\<rparr>
      = (Some (AccessFailed (assets @ ''/Res_Compute/48/Amazon-EC2.png'')),
         \<lparr>icons = [], isLoading = False, error = None, clipboard = None,
           toasts = [\<lparr>style = Failure, title = ''Failed to copy PNG icon to clipboard'',
                      message = ''The icon file might not exist or be accessible.''\<rparr>]\<rparr>)"
proof -
  let ?icon = "\<lparr>name = ''Amazon-EC2'', category = ''Res_Compute'', type = Resource,
        formats = [''png''], path = assets @ ''/Res_Compute/48/Amazon-EC2.png''\<rparr>"
  have h: "\<not> fs_access (disk [] [] None) (path ?icon)"
    by code_simp
  have t: "failure_toast Png = \<lparr>style = Failure, title = ''Failed to copy PNG icon to clipboard'',
                      message = ''The icon file might not exist or be accessible.''\<rparr>"
    by code_simp
  show ?thesis
    using h t copyIconToClipboard_missing_file [OF h, of Png
        "\<lparr>icons = [], isLoading = False, error = None, clipboard = None, toasts = []\<rparr>"]
    by simp
qed

text \<open>
  Claim C9. When the path of the record can be accessed and the clipboard takes the
  copy, the call puts the path of the record on the clipboard and shows the success
  toast, whatever the format; when the clipboard refuses the copy, the call shows the
  failure toast and leaves the clipboard as it was. For one icon and one view, the calls
  with \<open>png\<close> and with \<open>svg\<close> end the same way, leave the same file on the clipboard
  and the same view but for the toasts, and their toasts differ in the title only. A call
  that succeeds has put the path of the record on the clipboard; a call that fails has
  left the clipboard as it was.
\<close>

theorem copyIconToClipboard_same_file:
  "(fs_access e (path icon) \<and> clipboard_copy e (path icon) \<longrightarrow>
      copyIconToClipboard e icon format v =
        (None, v\<lparr>clipboard := Some (path icon), toasts := toasts v @ [success_toast format]\<rparr>))
   \<and> (fs_access e (path icon) \<and> \<not> clipboard_copy e (path icon) \<longrightarrow>
      copyIconToClipboard e icon format v =
        (Some (CopyFailed (path icon)), v\<lparr>toasts := toasts v @ [failure_toast format]\<rparr>))
   \<and> fst (copyIconToClipboard e icon Png v) = fst (copyIconToClipboard e icon Svg v)
   \<and> clipboard (snd (copyIconToClipboard e icon Png v)) = clipboard (snd (copyIconToClipboard e icon Svg v))
   \<and> (snd (copyIconToClipboard e icon Png v))\<lparr>toasts := []\<rparr> = (snd (copyIconToClipboard e icon Svg v))\<lparr>toasts := []\<rparr>
   \<and> map (\<lambda>t. t\<lparr>title := []\<rparr>) (toasts (snd (copyIconToClipboard e icon Png v)))
       = map (\<lambda>t. t\<lparr>title := []\<rparr>) (toasts (snd (copyIconToClipboard e icon Svg v)))
   \<and> (fst (copyIconToClipboard e icon format v) = None
        \<longrightarrow> clipboard (snd (copyIconToClipboard e icon format v)) = Some (path icon))
   \<and> (fst (copyIconToClipboard e icon format v) \<noteq> None
        \<longrightarrow> clipboard (snd (copyIconToClipboard e icon format v)) = clipboard v)"
  by (simp add: copyIconToClipboard_def success_toast_def failure_toast_def)

text \<open>
  An icon that has a PNG file only, and a clipboard that holds something already: both
  actions put that PNG file on the clipboard, and the toasts differ in the title. When
  the clipboard refuses the copy, or on a disk without the file, the clipboard keeps what
  it held.
\<close>

theorem copyIconToClipboard_same_file_witness:
  "fs_access example_host (path (s3 [''png'']))
   \<and> clipboard_copy example_host (path (s3 [''png'']))
   \<and> copyIconToClipboard example_host (s3 [''png'']) Svg
        \<lparr>icons = [], isLoading = False, error = None, clipboard = Some ''old'', toasts = []\<rparr>
      = (None, \<lparr>icons = [], isLoading = False, error = None,
                 clipboard = Some (assets @ ''/Arch_Storage/64/Amazon-S3.png''),
                 toasts = [\<lparr>style = Success, title = ''SVG icon copied to clipboard'',
                            message = ''Paste it wherever you need.''\<rparr>]\<rparr>)
   \<and> copyIconToClipboard example_host (s3 [''png'']) Png
        \<lparr>icons = [], isLoading = False, error = None, clipboard = Some ''old'', toasts = []\<rparr>
      = (None, \<lparr>icons = [], isLoading = False, error = None,
                 clipboard = Some (assets @ ''/Arch_Storage/64/Amazon-S3.png''),
                 toasts = [\<lparr>style = Success, title = ''PNG icon copied to clipboard'',
                            message = ''Paste it wherever you need.''\<rparr>]\<rparr>)
   \<and> fs_access (example_host\<lparr>clipboard_copy := \<lambda>p. False\<rparr>) (path (s3 [''png'']))
   \<and> \<not> clipboard_copy (example_host\<lparr>clipboard_copy := \<lambda>p. False\<rparr>) (path (s3 [''png'']))
   \<and> copyIconToClipboard (example_host\<lparr>clipboard_copy := \<lambda>p. False\<rparr>) (s3 [''png'']) Svg
        \<lparr>icons = [], isLoading = False, error = None, clipboard = Some ''old'', toasts = []\<rparr>
      = (Some (CopyFailed (assets @ ''/Arch_Storage/64/Amazon-S3.png'')),
         \<lparr>icons = [], isLoading = False, error = None, clipboard = Some ''old'',
           toasts = [\<lparr>style = Failure, title = ''Failed to copy SVG icon to clipboard'',
                      message = ''The icon file might not exist or be accessible.''\<rparr>]\<rparr>)
   \<and> fst (copyIconToClipboard (disk [] [] None) (s3 [''png'']) Svg
        \<lparr>icons = [], isLoading = False, error = None, clipboard = Some ''old'', toasts = []\<rparr>) \<noteq> None
   \<and> clipboard (snd (copyIconToClipboard (disk [] [] None) (s3 [''png'']) Svg
        \<lparr>icons = [], isLoading = False, error = None, clipboard = Some ''old'', toasts = []\<rparr>))
      = Some ''old''"
proof -
  let ?w = "\<lparr>icons = [], isLoading = False, error = None, clipboard = Some ''old'', toasts = []\<rparr>"
  let ?refusing = "example_host\<lparr>clipboard_copy := \<lambda>p. False\<rparr>"
  have a: "fs_access example_host (path (s3 [''png'']))" by code_simp
  have c: "clipboard_copy example_host (path (s3 [''png'']))" by code_simp
  have a': "fs_access ?refusing (path (s3 [''png'']))" by code_simp
  have c': "\<not> clipboard_copy ?refusing (path (s3 [''png'']))" by simp
  have ko: "fst (copyIconToClipboard (disk [] [] None) (s3 [''png'']) Svg ?w) \<noteq> None"
    by code_simp
  have p: "path (s3 [''png'']) = assets @ ''/Arch_Storage/64/Amazon-S3.png''"
    by (simp add: s3_def)
  have ts: "success_toast Svg = \<lparr>style = Success, title = ''SVG icon copied to clipboard'',
                            message = ''Paste it wherever you need.''\<rparr>"
    "success_toast Png = \<lparr>style = Success, title = ''PNG icon copied to clipboard'',
                            message = ''Paste it wherever you need.''\<rparr>"
    "failure_toast Svg = \<lparr>style = Failure, title = ''Failed to copy SVG icon to clipboard'',
                      message = ''The icon file might not exist or be accessible.''\<rparr>"
    by code_simp+
  have svg: "copyIconToClipboard example_host (s3 [''png'']) Svg ?w
      = (None, ?w\<lparr>clipboard := Some (path (s3 [''png''])), toasts := toasts ?w @ [success_toast Svg]\<rparr>)"
    using a c
      copyIconToClipboard_same_file [where e = example_host and icon = "s3 [''png'']" and v = ?w and format = Svg]
    by blast
  have png: "copyIconToClipboard example_host (s3 [''png'']) Png ?w
      = (None, ?w\<lparr>clipboard := Some (path (s3 [''png''])), toasts := toasts ?w @ [success_toast Png]\<rparr>)"
    using a c
      copyIconToClipboard_same_file [where e = example_host and icon = "s3 [''png'']" and v = ?w and format = Png]
    by blast
  have refused: "copyIconToClipboard ?refusing (s3 [''png'']) Svg ?w
      = (Some (CopyFailed (path (s3 [''png'']))), ?w\<lparr>toasts := toasts ?w @ [failure_toast Svg]\<rparr>)"
    using a' c'
      copyIconToClipboard_same_file [where e = ?refusing and icon = "s3 [''png'']" and v = ?w and format = Svg]
    by blast
  have kept: "clipboard (snd (copyIconToClipboard (disk [] [] None) (s3 [''png'']) Svg ?w)) = Some ''old''"
    using ko
      copyIconToClipboard_same_file [where e = "disk [] [] None" and icon = "s3 [''png'']" and v = ?w and format = Svg]
    by simp
  show ?thesis
    using a c a' c' ko kept svg png refused by (simp add: p ts)
qed

subsection \<open>Entries of the manifest\<close>

lemma entries_read_before_bad:
  assumes "\<forall>item \<in> set before. \<not> stat_fails e b item" and "stat_fails e b bad"
  shows "entries_read e b (before @ bad # after) = before"
    and "entries_read e b before = before"
    and "dropWhile (\<lambda>item. \<not> stat_fails e b item) (before @ bad # after) = bad # after"
    and "dropWhile (\<lambda>item. \<not> stat_fails e b item) before = []"
  using assms by (simp_all add: entries_read_def takeWhile_append dropWhile_append)

lemma extractIconData_short:
  "length (split CHR ''/'' item) < 3 \<Longrightarrow> extractIconData item itemPath = (None, [])"
  by (simp add: extractIconData_def)

lemma load_items_skip:
  assumes "fst (extractIconData item (path_join e [b, item])) = None"
  shows "load_items e b (item # rest) ics =
     (if stat_fails e b item then (Some (StatFailed (path_join e [b, item])), ics)
      else load_items e b rest ics)"
  using assms by (auto simp: stat_fails_def split: option.splits prod.splits)

lemma extractIconData_long:
  assumes "3 \<le> length (split CHR ''/'' item)"
  shows "extractIconData item itemPath =
     (let parts = split CHR ''/'' item;
          dots = split CHR ''.'' (last parts);
          format = last dots;
          nm = join ''.'' (butlast dots)
      in if format = [] \<or> nm = [] then (None, [])
         else (Some \<lparr>name = nm, category = parts ! 1, type = getTypeFromCategory (parts ! 1),
                     formats = [], path = itemPath\<rparr>, format))"
proof -
  have "split CHR ''/'' item \<noteq> []" by (rule split_not_Nil)
  then have l: "split CHR ''/'' item ! (length (split CHR ''/'' item) - Suc 0) = last (split CHR ''/'' item)"
    by (simp add: last_conv_nth)
  have "\<not> length (split CHR ''/'' item) < 3" using assms by simp
  then show ?thesis
    by (simp add: extractIconData_def Let_def pop_def split_not_Nil l)
qed

lemma extractIconData_Some:
  assumes "extractIconData item itemPath = (Some icon, f)"
  shows "formats icon = [] \<and> path icon = itemPath \<and> f \<noteq> [] \<and> name icon \<noteq> []
         \<and> type icon = getTypeFromCategory (category icon)"
  using assms
  by (auto simp: extractIconData_def Let_def pop_def split_not_Nil split: if_splits)

lemma file_entry_Some:
  assumes "file_entry e b item = Some (icon, f)"
  shows "startsWith item ''.'' \<and> fs_stat e (path_join e [b, item]) = Some True
         \<and> extractIconData item (path_join e [b, item]) = (Some icon, f)
         \<and> formats icon = [] \<and> path icon = path_join e [b, item]"
proof -
  from assms have m: "startsWith item ''.''" and s: "fs_stat e (path_join e [b, item]) = Some True"
    and x: "extractIconData item (path_join e [b, item]) = (Some icon, f)"
    by (auto simp: file_entry_def split: if_splits prod.splits option.splits)
  from extractIconData_Some [OF x] m s x show ?thesis by simp
qed

lemma file_entries_member:
  assumes "(icon, f) \<in> set (file_entries e b items)"
  shows "\<exists>item \<in> set items. file_entry e b item = Some (icon, f)"
  using assms unfolding file_entries_def
  by (induction items) (auto split: option.splits)

lemma set_entries_read: "set (entries_read e b items) \<subseteq> set items"
  by (auto simp: entries_read_def dest: set_takeWhileD)

lemma accepted_member:
  assumes "(icon, f) \<in> set (accepted e content)"
  shows "\<exists>item \<in> set (manifest_items content). file_entry e (baseDir e) item = Some (icon, f)"
  using file_entries_member [of icon f e "baseDir e"] assms set_entries_read
  unfolding accepted_def by blast

lemma accepted_formats: "\<forall>(i, f) \<in> set (accepted e content). formats i = []"
  using accepted_member file_entry_Some by blast

lemma filter_key_single:
  "distinct (map key ics) \<Longrightarrow> r \<in> set ics \<Longrightarrow> filter (\<lambda>x. key x = key r) ics = [r]"
proof (induction ics)
  case Nil
  then show ?case by simp
next
  case (Cons a ics)
  show ?case
  proof (cases "a = r")
    case True
    have "key r \<notin> key ` set ics" using Cons.prems(1) True by simp
    then have "\<forall>x \<in> set ics. key x \<noteq> key r" by (metis imageI)
    then have "filter (\<lambda>x. key x = key r) ics = []" by (simp add: filter_empty_conv)
    then show ?thesis using True by simp
  next
    case False
    then have "r \<in> set ics" using Cons.prems(2) by simp
    moreover have "key a \<noteq> key r" using Cons.prems(1) \<open>r \<in> set ics\<close> by auto
    ultimately show ?thesis using Cons by simp
  qed
qed

lemma add_icon_existing:
  "find (same_icon icon) ics \<noteq> None \<Longrightarrow>
     map (\<lambda>r. r\<lparr>formats := []\<rparr>) (add_icon icon f ics) = map (\<lambda>r. r\<lparr>formats := []\<rparr>) ics
     \<and> list_all2 (\<lambda>r r'. prefix (formats r) (formats r')) ics (add_icon icon f ics)"
proof (induction ics)
  case Nil
  then show ?case by simp
next
  case (Cons a ics)
  have refl: "list_all2 (\<lambda>r r'. prefix (formats r) (formats r')) ics ics"
    by (simp add: list_all2_refl)
  show ?case
  proof (cases "same_icon icon a")
    case True
    then show ?thesis using refl by (simp add: add_icon_Cons push_format_def)
  next
    case False
    then show ?thesis using Cons by (simp add: add_icon_Cons)
  qed
qed

lemma map_path_add_icon:
  "map path (add_icon icon f ics) =
     (if find (same_icon icon) ics = None then map path ics @ [path icon] else map path ics)"
  by (induction ics) (auto simp: add_icon_Nil add_icon_Cons push_format_def)

lemma formats_update: "r = i\<lparr>formats := fs\<rparr> \<Longrightarrow> formats r = fs"
  by simp

lemma others_update: "r = i\<lparr>formats := fs\<rparr> \<Longrightarrow> key r = key i \<and> path r = path i"
  by (simp add: key_def)

text \<open>The record of a loaded catalog for a triple, from the entries the load accepted.\<close>

lemma catalog_record:
  assumes "r \<in> set (add_all (accepted e content) [])"
  shows "\<exists>i f. first_entry (accepted e content) (key r) = Some (i, f)
           \<and> r = i\<lparr>formats := formats_seen (accepted e content) (key r)\<rparr>"
proof -
  have "record_of (add_all (accepted e content) []) (key r) = Some r"
    using distinct_add_all assms by (rule record_of_member)
  then show ?thesis
    using record_of_add_all [OF accepted_formats, of e content "key r"]
    by (auto split: option.splits)
qed

lemma card_formats:
  "card (snd ` {x \<in> set es. key (fst x) = k}) = length (formats_seen es k)"
proof -
  have "snd ` {x \<in> set es. key (fst x) = k} = set (map snd (filter (\<lambda>(i, f). key i = k) es))"
    by (auto simp: image_iff)
  then show ?thesis by (simp add: formats_seen_def length_first_appearances)
qed

lemma find_member: "find P xs = Some x \<Longrightarrow> x \<in> set xs"
  by (induction xs) (auto split: if_splits)

lemma first_entry_member: "first_entry es k = Some x \<Longrightarrow> x \<in> set es"
  unfolding first_entry_def by (rule find_member)

subsection \<open>The example\<close>

lemma example_loaded:
  "fs_access example_host (baseDir example_host)"
  "fs_readFile example_host (listFilePath example_host) = Some example_manifest"
  by code_simp+

lemma example_catalog: "loadIconsData example_host = Inr [ec2 [''png'', ''svg''], s3 [''png'']]"
  by code_simp

lemma example_accepted:
  "accepted example_host example_manifest =
     [(ec2 [], ''png''), (s3 [], ''png''),
      (ec2 []\<lparr>path := assets @ ''/Res_Compute/48/Amazon-EC2.svg''\<rparr>, ''svg'')]"
  by code_simp

subsection \<open>One record for each icon\<close>

text \<open>
  Claim C1 (amended). On every host the catalog of \<open>loadIconsData\<close> has at most one
  record for a triple of name, category and type. When the manifest can be read, every
  triple of a valid file entry that appears before the first entry whose stat fails
  (every valid file entry, when no stat fails) has exactly one record in the catalog;
  the formats of that record are distinct, and their number is the number of distinct
  formats among those entries of the triple. An entry whose triple has a record already
  changes nothing but the formats of records, and each list of formats only grows at its
  end.
\<close>

theorem loadIconsData_one_record_per_icon:
  "(\<exists>catalog. loadIconsData e = Inr catalog \<and> distinct (map key catalog))
   \<and> (fs_access e (baseDir e) \<and> fs_readFile e (listFilePath e) = Some content \<longrightarrow>
        (\<exists>catalog. loadIconsData e = Inr catalog \<and>
           (\<forall>k \<in> set (map (key \<circ> fst) (accepted e content)).
              \<exists>r. filter (\<lambda>x. key x = k) catalog = [r]
                 \<and> distinct (formats r)
                 \<and> length (formats r) = card (snd ` {x \<in> set (accepted e content). key (fst x) = k}))))
   \<and> (find (same_icon icon) ics \<noteq> None \<longrightarrow>
        map (\<lambda>r. r\<lparr>formats := []\<rparr>) (add_icon icon f ics) = map (\<lambda>r. r\<lparr>formats := []\<rparr>) ics
        \<and> list_all2 (\<lambda>r r'. prefix (formats r) (formats r')) ics (add_icon icon f ics))"
proof (intro conjI impI)
  show "\<exists>catalog. loadIconsData e = Inr catalog \<and> distinct (map key catalog)"
  proof (cases "fs_access e (baseDir e)")
    case False
    then show ?thesis by (simp add: loadIconsData_def load_try_def)
  next
    case True
    show ?thesis
    proof (cases "fs_readFile e (listFilePath e)")
      case None
      then show ?thesis using True by (simp add: loadIconsData_def load_try_def)
    next
      case (Some content')
      then show ?thesis
        using True by (simp add: loadIconsData_loaded distinct_add_all)
    qed
  qed
next
  assume "fs_access e (baseDir e) \<and> fs_readFile e (listFilePath e) = Some content"
  then have loaded: "loadIconsData e = Inr (add_all (accepted e content) [])"
    by (simp add: loadIconsData_loaded)
  let ?es = "accepted e content"
  let ?cat = "add_all ?es []"
  have "\<forall>k \<in> set (map (key \<circ> fst) ?es).
          \<exists>r. filter (\<lambda>x. key x = k) ?cat = [r] \<and> distinct (formats r)
             \<and> length (formats r) = card (snd ` {x \<in> set ?es. key (fst x) = k})"
  proof
    fix k assume "k \<in> set (map (key \<circ> fst) ?es)"
    then have "k \<in> set (map key ?cat)"
      by (simp add: map_key_add_all set_first_appearances)
    then obtain r where r: "r \<in> set ?cat" and k: "key r = k" by auto
    have one: "filter (\<lambda>x. key x = k) ?cat = [r]"
      using filter_key_single [OF distinct_add_all r] k by simp
    obtain i :: AWSIcon where "r = i\<lparr>formats := formats_seen ?es (key r)\<rparr>"
      using catalog_record [OF r] by blast
    then have "formats r = formats_seen ?es (key r)"
      by (rule formats_update)
    then have fr: "formats r = formats_seen ?es k"
      using k by simp
    have "distinct (formats r)"
      by (simp add: fr formats_seen_def distinct_first_appearances)
    moreover have "length (formats r) = card (snd ` {x \<in> set ?es. key (fst x) = k})"
      by (simp add: fr card_formats)
    ultimately show "\<exists>r. filter (\<lambda>x. key x = k) ?cat = [r] \<and> distinct (formats r)
             \<and> length (formats r) = card (snd ` {x \<in> set ?es. key (fst x) = k})"
      using one by blast
  qed
  with loaded show "\<exists>catalog. loadIconsData e = Inr catalog \<and>
           (\<forall>k \<in> set (map (key \<circ> fst) (accepted e content)).
              \<exists>r. filter (\<lambda>x. key x = k) catalog = [r]
                 \<and> distinct (formats r)
                 \<and> length (formats r) = card (snd ` {x \<in> set (accepted e content). key (fst x) = k}))"
    by blast
next
  assume "find (same_icon icon) ics \<noteq> None"
  then show "map (\<lambda>r. r\<lparr>formats := []\<rparr>) (add_icon icon f ics) = map (\<lambda>r. r\<lparr>formats := []\<rparr>) ics"
    using add_icon_existing by blast
next
  assume "find (same_icon icon) ics \<noteq> None"
  then show "list_all2 (\<lambda>r r'. prefix (formats r) (formats r')) ics (add_icon icon f ics)"
    using add_icon_existing by blast
qed

text \<open>
  The example manifest: the two entries of Amazon-EC2 give one record with two formats,
  and the second entry appends its format to the record of the first.
\<close>

theorem loadIconsData_one_record_per_icon_witness:
  "fs_access example_host (baseDir example_host)
   \<and> fs_readFile example_host (listFilePath example_host) = Some example_manifest
   \<and> loadIconsData example_host = Inr [ec2 [''png'', ''svg''], s3 [''png'']]
   \<and> key (ec2 []) \<in> set (map (key \<circ> fst) (accepted example_host example_manifest))
   \<and> (\<exists>r. filter (\<lambda>x. key x = key (ec2 [])) [ec2 [''png'', ''svg''], s3 [''png'']] = [r]
          \<and> distinct (formats r)
          \<and> length (formats r)
              = card (snd ` {x \<in> set (accepted example_host example_manifest). key (fst x) = key (ec2 [])}))
   \<and> find (same_icon (ec2 [])) [ec2 [''png''], s3 [''png'']] \<noteq> None
   \<and> add_icon (ec2 []) ''svg'' [ec2 [''png''], s3 [''png'']] = [ec2 [''png'', ''svg''], s3 [''png'']]
   \<and> list_all2 (\<lambda>r r'. prefix (formats r) (formats r')) [ec2 [''png''], s3 [''png'']]
         (add_icon (ec2 []) ''svg'' [ec2 [''png''], s3 [''png'']])"
proof -
  note h = example_loaded
  have k: "key (ec2 []) \<in> set (map (key \<circ> fst) (accepted example_host example_manifest))"
    by (simp add: example_accepted)
  from loadIconsData_one_record_per_icon [of example_host example_manifest] h
  have "\<exists>catalog. loadIconsData example_host = Inr catalog \<and>
           (\<forall>k \<in> set (map (key \<circ> fst) (accepted example_host example_manifest)).
              \<exists>r. filter (\<lambda>x. key x = k) catalog = [r]
                 \<and> distinct (formats r)
                 \<and> length (formats r) = card (snd ` {x \<in> set (accepted example_host example_manifest). key (fst x) = k}))"
    by blast
  then have "\<forall>k \<in> set (map (key \<circ> fst) (accepted example_host example_manifest)).
              \<exists>r. filter (\<lambda>x. key x = k) [ec2 [''png'', ''svg''], s3 [''png'']] = [r]
                 \<and> distinct (formats r)
                 \<and> length (formats r) = card (snd ` {x \<in> set (accepted example_host example_manifest). key (fst x) = k})"
    by (simp add: example_catalog)
  with k have one: "\<exists>r. filter (\<lambda>x. key x = key (ec2 [])) [ec2 [''png'', ''svg''], s3 [''png'']] = [r]
          \<and> distinct (formats r)
          \<and> length (formats r)
              = card (snd ` {x \<in> set (accepted example_host example_manifest). key (fst x) = key (ec2 [])})"
    by blast
  have found: "find (same_icon (ec2 [])) [ec2 [''png''], s3 [''png'']] \<noteq> None"
    by code_simp
  have added: "add_icon (ec2 []) ''svg'' [ec2 [''png''], s3 [''png'']] = [ec2 [''png'', ''svg''], s3 [''png'']]"
    by code_simp
  from loadIconsData_one_record_per_icon
      [where icon = "ec2 []" and ics = "[ec2 [''png''], s3 [''png'']]" and f = "''svg''"] found
  have grow: "list_all2 (\<lambda>r r'. prefix (formats r) (formats r')) [ec2 [''png''], s3 [''png'']]
         (add_icon (ec2 []) ''svg'' [ec2 [''png''], s3 [''png'']])"
    by blast
  from h k example_catalog one found added grow show ?thesis by blast
qed

text \<open>
  The restriction to the entries before the first failing stat is needed. The manifest
  below has two valid file entries for Amazon-EC2, with
  the formats \<open>png\<close> and \<open>svg\<close>; the stat of \<open>gone.png\<close> fails between them, and
  the record of the catalog has one format.
\<close>

theorem dangling_entry_loses_format:
  "file_entries (host_with ''./Res_Compute/48/Amazon-EC2.png\<newline>./Res_Compute/48/gone.png\<newline>./Res_Compute/48/Amazon-EC2.svg'')
       assets
       (manifest_items ''./Res_Compute/48/Amazon-EC2.png\<newline>./Res_Compute/48/gone.png\<newline>./Res_Compute/48/Amazon-EC2.svg'')
     = [(ec2 [], ''png''), (ec2 []\<lparr>path := assets @ ''/Res_Compute/48/Amazon-EC2.svg''\<rparr>, ''svg'')]
   \<and> key (ec2 []\<lparr>path := assets @ ''/Res_Compute/48/Amazon-EC2.svg''\<rparr>) = key (ec2 [])
   \<and> fs_stat (host_with ''./Res_Compute/48/Amazon-EC2.png\<newline>./Res_Compute/48/gone.png\<newline>./Res_Compute/48/Amazon-EC2.svg'')
         (assets @ ''/Res_Compute/48/gone.png'') = None
   \<and> loadIconsData (host_with ''./Res_Compute/48/Amazon-EC2.png\<newline>./Res_Compute/48/gone.png\<newline>./Res_Compute/48/Amazon-EC2.svg'')
     = Inr [ec2 [''png'']]
   \<and> length (formats (ec2 [''png''])) \<noteq> 2"
  by code_simp

subsection \<open>Name and format of an entry\<close>

text \<open>
  Claim C3 (amended). For an entry with at least three segments, the file name is the
  last segment; split at the dots, its last part is the format and the other parts,
  joined with dots again, are the name. When the format or the name is empty,
  \<open>extractIconData\<close> returns no icon, the entry is no file entry of the catalog, and
  the loop goes on with the next entry and the same records, unless the stat of the
  entry itself fails: a failing stat ends the loop before the file name is looked at.
  The file name \<open>Amazon-EC2.png\<close> in the category \<open>Res_Compute\<close> gives the name
  \<open>Amazon-EC2\<close>, the format \<open>png\<close> and the type Resource.
\<close>

theorem extractIconData_name_and_format:
  assumes "3 \<le> length (split CHR ''/'' item)"
  shows "(let parts = split CHR ''/'' item;
              filename = last parts;
              dots = split CHR ''.'' filename;
              format = last dots;
              nm = join ''.'' (butlast dots)
          in extractIconData item itemPath =
               (if format = [] \<or> nm = [] then (None, [])
                else (Some \<lparr>name = nm, category = parts ! 1, type = getTypeFromCategory (parts ! 1),
                            formats = [], path = itemPath\<rparr>, format))
             \<and> (format = [] \<or> nm = [] \<longrightarrow>
                  file_entry e b item = None
                  \<and> load_items e b (item # rest) ics =
                      (if stat_fails e b item then (Some (StatFailed (path_join e [b, item])), ics)
                       else load_items e b rest ics))
             \<and> (parts ! 1 = ''Res_Compute'' \<and> filename = ''Amazon-EC2.png'' \<longrightarrow>
                  extractIconData item itemPath =
                    (Some \<lparr>name = ''Amazon-EC2'', category = ''Res_Compute'', type = Resource,
                           formats = [], path = itemPath\<rparr>, ''png'')))"
proof -
  define parts where "parts = split CHR ''/'' item"
  define dots where "dots = split CHR ''.'' (last parts)"
  have x: "\<And>p. extractIconData item p =
               (if last dots = [] \<or> join ''.'' (butlast dots) = [] then (None, [])
                else (Some \<lparr>name = join ''.'' (butlast dots), category = parts ! 1,
                            type = getTypeFromCategory (parts ! 1),
                            formats = [], path = p\<rparr>, last dots))"
    using extractIconData_long [OF assms] by (simp add: Let_def parts_def dots_def)
  have skip: "last dots = [] \<or> join ''.'' (butlast dots) = [] \<Longrightarrow>
      file_entry e b item = None
      \<and> load_items e b (item # rest) ics =
          (if stat_fails e b item then (Some (StatFailed (path_join e [b, item])), ics)
           else load_items e b rest ics)"
  proof -
    assume bad: "last dots = [] \<or> join ''.'' (butlast dots) = []"
    then have n: "\<And>p. extractIconData item p = (None, [])" using x by simp
    have "file_entry e b item = None" by (simp add: file_entry_def n)
    moreover have "load_items e b (item # rest) ics =
          (if stat_fails e b item then (Some (StatFailed (path_join e [b, item])), ics)
           else load_items e b rest ics)"
      by (rule load_items_skip) (simp add: n)
    ultimately show ?thesis by blast
  qed
  have ex: "parts ! 1 = ''Res_Compute'' \<and> last parts = ''Amazon-EC2.png'' \<Longrightarrow>
      extractIconData item itemPath =
        (Some \<lparr>name = ''Amazon-EC2'', category = ''Res_Compute'', type = Resource,
               formats = [], path = itemPath\<rparr>, ''png'')"
  proof -
    assume a: "parts ! 1 = ''Res_Compute'' \<and> last parts = ''Amazon-EC2.png''"
    then have d: "dots = [''Amazon-EC2'', ''png'']" by (simp add: dots_def)
    have t: "getTypeFromCategory ''Res_Compute'' = Resource" by (simp add: getTypeFromCategory_def)
    show ?thesis using a by (simp add: x d t)
  qed
  show ?thesis
    unfolding Let_def parts_def [symmetric] dots_def [symmetric]
    using x skip ex by blast
qed

text \<open>
  An icon file, a file without a dot in its name, and a directory of three segments,
  which has no dot either and is passed over.
\<close>

theorem extractIconData_name_and_format_witness:
  "3 \<le> length (split CHR ''/'' ''./Res_Compute/48/Amazon-EC2.png'')
   \<and> extractIconData ''./Res_Compute/48/Amazon-EC2.png'' (assets @ ''/Res_Compute/48/Amazon-EC2.png'')
      = (Some (ec2 []), ''png'')
   \<and> 3 \<le> length (split CHR ''/'' ''./Res_Compute/48/README'')
   \<and> extractIconData ''./Res_Compute/48/README'' (assets @ ''/Res_Compute/48/README'') = (None, [])
   \<and> load_items example_host assets [''./Res_Compute/48'', ''./Res_Compute/48/Amazon-EC2.png''] []
      = load_items example_host assets [''./Res_Compute/48/Amazon-EC2.png''] []"
proof -
  have a: "3 \<le> length (split CHR ''/'' ''./Res_Compute/48/Amazon-EC2.png'')" by simp
  have b: "3 \<le> length (split CHR ''/'' ''./Res_Compute/48/README'')" by simp
  have c: "3 \<le> length (split CHR ''/'' ''./Res_Compute/48'')" by simp
  have ns: "\<not> stat_fails example_host assets ''./Res_Compute/48''" by code_simp
  have e1: "extractIconData ''./Res_Compute/48/Amazon-EC2.png'' (assets @ ''/Res_Compute/48/Amazon-EC2.png'')
      = (Some (ec2 []), ''png'')"
    using extractIconData_name_and_format [OF a, of "assets @ ''/Res_Compute/48/Amazon-EC2.png''"]
    by (simp add: Let_def ec2_def getTypeFromCategory_def)
  have e2: "extractIconData ''./Res_Compute/48/README'' (assets @ ''/Res_Compute/48/README'') = (None, [])"
    using extractIconData_name_and_format [OF b, of "assets @ ''/Res_Compute/48/README''"]
    by (simp add: Let_def)
  have e3: "load_items example_host assets [''./Res_Compute/48'', ''./Res_Compute/48/Amazon-EC2.png''] []
      = load_items example_host assets [''./Res_Compute/48/Amazon-EC2.png''] []"
    using extractIconData_name_and_format [OF c, of _ example_host assets "[''./Res_Compute/48/Amazon-EC2.png'']" "[]"] ns
    by (simp add: Let_def)
  from a b e1 e2 e3 show ?thesis by blast
qed

text \<open>
  The condition on the stat is needed. For an entry with an empty name that has no file
  on the disk, the load ends at \<open>README\<close>, and the icon after it is not loaded.
\<close>

theorem empty_name_entry_aborts:
  "3 \<le> length (split CHR ''/'' ''./Res_Compute/48/README'')
   \<and> extractIconData ''./Res_Compute/48/README'' (assets @ ''/Res_Compute/48/README'') = (None, [])
   \<and> fs_stat (host_with ''./Res_Compute/48/README\<newline>./Res_Compute/48/Amazon-EC2.png'')
         (assets @ ''/Res_Compute/48/README'') = None
   \<and> loadIconsData (host_with ''./Res_Compute/48/README\<newline>./Res_Compute/48/Amazon-EC2.png'') = Inr []
   \<and> loadIconsData (host_with ''./Res_Compute/48/Amazon-EC2.png'') = Inr [ec2 [''png'']]"
  by code_simp

subsection \<open>Entries with fewer than three segments\<close>

text \<open>
  Claim C5 (amended). For an entry with fewer than three segments,
  \<open>extractIconData\<close> returns no icon, the entry is no file entry of the catalog, and
  the loop leaves the records as they are. The loop goes on with the next entry, unless
  the stat of the entry itself fails, which ends the loop as it does for any other
  entry. \<open>loadIconsData\<close> never rejects.
\<close>

theorem short_entry_skipped:
  assumes "length (split CHR ''/'' item) < 3"
  shows "extractIconData item itemPath = (None, [])
     \<and> file_entry e b item = None
     \<and> snd (load_items e b [item] ics) = ics
     \<and> load_items e b (item # rest) ics =
          (if stat_fails e b item then (Some (StatFailed (path_join e [b, item])), ics)
           else load_items e b rest ics)
     \<and> (\<exists>catalog. loadIconsData e = Inr catalog)"
proof -
  have x: "\<And>p. extractIconData item p = (None, [])"
    using assms by (rule extractIconData_short)
  have s: "\<And>rest. load_items e b (item # rest) ics =
          (if stat_fails e b item then (Some (StatFailed (path_join e [b, item])), ics)
           else load_items e b rest ics)"
    by (rule load_items_skip) (simp add: x)
  have "file_entry e b item = None" by (simp add: file_entry_def x)
  moreover have "snd (load_items e b [item] ics) = ics" by (subst s) simp
  ultimately show ?thesis using x s loadIconsData_total by blast
qed

text \<open>The entry of the manifest file itself has two segments and is passed over.\<close>

theorem short_entry_skipped_witness:
  "length (split CHR ''/'' ''./find.txt'') < 3
   \<and> \<not> stat_fails example_host assets ''./find.txt''
   \<and> extractIconData ''./find.txt'' (assets @ ''/find.txt'') = (None, [])
   \<and> load_items example_host assets [''./find.txt'', ''./Res_Compute/48/Amazon-EC2.png''] []
      = load_items example_host assets [''./Res_Compute/48/Amazon-EC2.png''] []
   \<and> load_items example_host assets [''./Res_Compute/48/Amazon-EC2.png''] [] = (None, [ec2 [''png'']])"
proof -
  have a: "length (split CHR ''/'' ''./find.txt'') < 3" by simp
  have ns: "\<not> stat_fails example_host assets ''./find.txt''" by code_simp
  have r: "load_items example_host assets [''./Res_Compute/48/Amazon-EC2.png''] [] = (None, [ec2 [''png'']])"
    by code_simp
  from short_entry_skipped [OF a, of "assets @ ''/find.txt''" example_host assets "[]"
      "[''./Res_Compute/48/Amazon-EC2.png'']"] ns
  have "extractIconData ''./find.txt'' (assets @ ''/find.txt'') = (None, [])
     \<and> load_items example_host assets [''./find.txt'', ''./Res_Compute/48/Amazon-EC2.png''] []
      = load_items example_host assets [''./Res_Compute/48/Amazon-EC2.png''] []"
    by simp
  with a ns r show ?thesis by blast
qed

text \<open>
  The condition on the stat is needed. For an entry of two segments that has no file on
  the disk, the load ends at \<open>gone.png\<close>, and the icon after it is not loaded.
\<close>

theorem short_entry_aborts:
  "length (split CHR ''/'' ''./gone.png'') < 3
   \<and> fs_stat (host_with ''./gone.png\<newline>./Res_Compute/48/Amazon-EC2.png'') (assets @ ''/gone.png'') = None
   \<and> loadIconsData (host_with ''./gone.png\<newline>./Res_Compute/48/Amazon-EC2.png'') = Inr []
   \<and> loadIconsData (host_with ''./Res_Compute/48/Amazon-EC2.png'') = Inr [ec2 [''png'']]"
  by code_simp

subsection \<open>Order and paths of the records\<close>

text \<open>
  Claim C7. When the manifest can be read, the triples of the catalog are the triples of
  the file entries that the load reached, in the order of their first appearance in the
  manifest. The path of each record is the path of the first such entry of its triple:
  \<open>path.join\<close> of the base directory and that entry of the manifest. An entry whose
  triple has a record already leaves every path as it is.
\<close>

theorem loadIconsData_first_appearance_order:
  assumes "fs_access e (baseDir e)" and "fs_readFile e (listFilePath e) = Some content"
  shows "(\<exists>catalog. loadIconsData e = Inr catalog
            \<and> map key catalog = first_appearances (map (key \<circ> fst) (accepted e content))
            \<and> (\<forall>r \<in> set catalog. \<exists>i f item.
                  first_entry (accepted e content) (key r) = Some (i, f)
                  \<and> item \<in> set (manifest_items content)
                  \<and> file_entry e (baseDir e) item = Some (i, f)
                  \<and> path r = path_join e [baseDir e, item]))
         \<and> map path (add_icon icon g ics) =
             (if find (same_icon icon) ics = None then map path ics @ [path icon]
              else map path ics)"
proof -
  let ?es = "accepted e content"
  let ?cat = "add_all ?es []"
  have loaded: "loadIconsData e = Inr ?cat"
    using assms by (rule loadIconsData_loaded)
  have order: "map key ?cat = first_appearances (map (key \<circ> fst) ?es)"
    by (rule map_key_add_all)
  have paths: "\<forall>r \<in> set ?cat. \<exists>i f item.
           first_entry ?es (key r) = Some (i, f)
           \<and> item \<in> set (manifest_items content)
           \<and> file_entry e (baseDir e) item = Some (i, f)
           \<and> path r = path_join e [baseDir e, item]"
  proof
    fix r assume "r \<in> set ?cat"
    then obtain i f where first: "first_entry ?es (key r) = Some (i, f)"
      and r: "r = i\<lparr>formats := formats_seen ?es (key r)\<rparr>"
      using catalog_record by blast
    have "(i, f) \<in> set ?es" using first by (rule first_entry_member)
    then obtain item where item: "item \<in> set (manifest_items content)"
      and entry: "file_entry e (baseDir e) item = Some (i, f)"
      using accepted_member by blast
    have "path i = path_join e [baseDir e, item]"
      using file_entry_Some [OF entry] by simp
    moreover have "path r = path i" using others_update [OF r] by simp
    ultimately show "\<exists>i f item.
           first_entry ?es (key r) = Some (i, f)
           \<and> item \<in> set (manifest_items content)
           \<and> file_entry e (baseDir e) item = Some (i, f)
           \<and> path r = path_join e [baseDir e, item]"
      using first item entry by auto
  qed
  show ?thesis
    using loaded order paths map_path_add_icon by blast
qed

text \<open>
  The example manifest: Amazon-EC2 comes before Amazon-S3, and its path is the path of
  its PNG file, which comes before its SVG file.
\<close>

theorem loadIconsData_first_appearance_order_witness:
  "fs_access example_host (baseDir example_host)
   \<and> fs_readFile example_host (listFilePath example_host) = Some example_manifest
   \<and> loadIconsData example_host = Inr [ec2 [''png'', ''svg''], s3 [''png'']]
   \<and> map key [ec2 [''png'', ''svg''], s3 [''png'']]
       = first_appearances (map (key \<circ> fst) (accepted example_host example_manifest))
   \<and> first_appearances (map (key \<circ> fst) (accepted example_host example_manifest))
       = [key (ec2 []), key (s3 [])]
   \<and> map path [ec2 [''png'', ''svg''], s3 [''png'']]
       = [path_join example_host [baseDir example_host, ''./Res_Compute/48/Amazon-EC2.png''],
          path_join example_host [baseDir example_host, ''./Arch_Storage/64/Amazon-S3.png'']]"
proof -
  note h = example_loaded
  from loadIconsData_first_appearance_order [OF h]
  have "\<exists>catalog. loadIconsData example_host = Inr catalog
     \<and> map key catalog = first_appearances (map (key \<circ> fst) (accepted example_host example_manifest))"
    by blast
  then have o: "map key [ec2 [''png'', ''svg''], s3 [''png'']]
       = first_appearances (map (key \<circ> fst) (accepted example_host example_manifest))"
    by (simp add: example_catalog)
  have f: "first_appearances (map (key \<circ> fst) (accepted example_host example_manifest))
       = [key (ec2 []), key (s3 [])]"
    by code_simp
  have p: "map path [ec2 [''png'', ''svg''], s3 [''png'']]
       = [path_join example_host [baseDir example_host, ''./Res_Compute/48/Amazon-EC2.png''],
          path_join example_host [baseDir example_host, ''./Arch_Storage/64/Amazon-S3.png'']]"
    by code_simp
  from h example_catalog o f p show ?thesis by blast
qed

subsection \<open>A failing stat\<close>

text \<open>
  Claim C10. When the stat of an entry fails and no stat failed before it, the loop ends
  with that error, which the \<open>catch\<close> block takes: \<open>loadIconsData\<close> returns the
  records of the entries before the failing one, exactly the catalog that these entries
  alone give, and does not reject. The entries after the failing one are not read.
\<close>

theorem loadIconsData_stat_failure_partial:
  assumes "fs_access e (baseDir e)"
    and "fs_readFile e (listFilePath e) = Some content"
    and "manifest_items content = before @ bad # after"
    and "\<forall>item \<in> set before. \<not> stat_fails e (baseDir e) item"
    and "stat_fails e (baseDir e) bad"
  shows "load_try e = (Some (StatFailed (path_join e [baseDir e, bad])),
                       add_all (file_entries e (baseDir e) before) [])
         \<and> load_items e (baseDir e) before [] = (None, add_all (file_entries e (baseDir e) before) [])
         \<and> loadIconsData e = Inr (add_all (file_entries e (baseDir e) before) [])"
proof -
  note r = entries_read_before_bad [OF assms(4) assms(5)]
  have 1: "load_try e = (Some (StatFailed (path_join e [baseDir e, bad])),
                       add_all (file_entries e (baseDir e) before) [])"
    using assms(1,2,3) by (simp add: load_try_def load_items_eq r)
  have 2: "load_items e (baseDir e) before [] = (None, add_all (file_entries e (baseDir e) before) [])"
    by (simp add: load_items_eq r)
  have 3: "loadIconsData e = Inr (add_all (file_entries e (baseDir e) before) [])"
    using 1 by (simp add: loadIconsData_def)
  from 1 2 3 show ?thesis by blast
qed

text \<open>A partial catalog that is not empty: the PNG file is loaded, the SVG file is not.\<close>

theorem loadIconsData_stat_failure_partial_witness:
  "fs_access (host_with ''./Res_Compute/48/Amazon-EC2.png\<newline>./Res_Compute/48/gone.png\<newline>./Res_Compute/48/Amazon-EC2.svg'') assets
   \<and> manifest_items ''./Res_Compute/48/Amazon-EC2.png\<newline>./Res_Compute/48/gone.png\<newline>./Res_Compute/48/Amazon-EC2.svg''
       = [''./Res_Compute/48/Amazon-EC2.png''] @ ''./Res_Compute/48/gone.png'' # [''./Res_Compute/48/Amazon-EC2.svg'']
   \<and> \<not> stat_fails (host_with ''./Res_Compute/48/Amazon-EC2.png\<newline>./Res_Compute/48/gone.png\<newline>./Res_Compute/48/Amazon-EC2.svg'')
         assets ''./Res_Compute/48/Amazon-EC2.png''
   \<and> stat_fails (host_with ''./Res_Compute/48/Amazon-EC2.png\<newline>./Res_Compute/48/gone.png\<newline>./Res_Compute/48/Amazon-EC2.svg'')
         assets ''./Res_Compute/48/gone.png''
   \<and> load_try (host_with ''./Res_Compute/48/Amazon-EC2.png\<newline>./Res_Compute/48/gone.png\<newline>./Res_Compute/48/Amazon-EC2.svg'')
       = (Some (StatFailed (assets @ ''/Res_Compute/48/gone.png'')), [ec2 [''png'']])
   \<and> loadIconsData (host_with ''./Res_Compute/48/Amazon-EC2.png\<newline>./Res_Compute/48/gone.png\<newline>./Res_Compute/48/Amazon-EC2.svg'')
       = Inr [ec2 [''png'']]"
proof -
  let ?m = "''./Res_Compute/48/Amazon-EC2.png\<newline>./Res_Compute/48/gone.png\<newline>./Res_Compute/48/Amazon-EC2.svg''"
  let ?e = "host_with ?m"
  have b: "baseDir ?e = assets" by code_simp
  have h1: "fs_access ?e (baseDir ?e)" by code_simp
  have h2: "fs_readFile ?e (listFilePath ?e) = Some ?m" by code_simp
  have h3: "manifest_items ?m
       = [''./Res_Compute/48/Amazon-EC2.png''] @ ''./Res_Compute/48/gone.png'' # [''./Res_Compute/48/Amazon-EC2.svg'']"
    by code_simp
  have ok: "\<not> stat_fails ?e assets ''./Res_Compute/48/Amazon-EC2.png''" by code_simp
  then have h4: "\<forall>item \<in> set [''./Res_Compute/48/Amazon-EC2.png'']. \<not> stat_fails ?e (baseDir ?e) item"
    by (simp add: b)
  have bad: "stat_fails ?e assets ''./Res_Compute/48/gone.png''" by code_simp
  then have h5: "stat_fails ?e (baseDir ?e) ''./Res_Compute/48/gone.png''" by (simp add: b)
  have p: "path_join ?e [assets, ''./Res_Compute/48/gone.png''] = assets @ ''/Res_Compute/48/gone.png''"
    by code_simp
  have c: "add_all (file_entries ?e assets [''./Res_Compute/48/Amazon-EC2.png'']) [] = [ec2 [''png'']]"
    by code_simp
  from loadIconsData_stat_failure_partial [OF h1 h2 h3 h4 h5]
  have "load_try ?e = (Some (StatFailed (assets @ ''/Res_Compute/48/gone.png'')), [ec2 [''png'']])
      \<and> loadIconsData ?e = Inr [ec2 [''png'']]"
    by (simp add: b p c)
  with h1 h3 ok bad show ?thesis by (simp add: b)
qed

subsection \<open>The title of a cell\<close>

lemma truncate_length:
  "length (truncate str maxLength) = (if length str \<le> maxLength then length str else maxLength + 3)"
  by (simp add: truncate_def)

lemma cell_title_eq:
  "cell_title icon =
     (if length (name icon) \<le> 20 then name icon else take 20 (name icon) @ ''...'')"
  by (simp add: cell_title_def truncate_def)

lemma cell_title_length:
  "length (cell_title icon) = (if length (name icon) \<le> 20 then length (name icon) else 23)"
  by (simp add: cell_title_eq)

text \<open>
  Claim C8. The title of a cell is \<open>truncate\<close> of the name with the limit 20. A name
  of 21 characters gets a title of 23 characters: its first 20 characters and three
  dots. The title is longer than the limit, and longer than the name.
\<close>

theorem cell_title_exceeds_limit:
  "length ''AWS-Elastic-Beanstalk'' = 21
   \<and> cell_title \<lparr>name = ''AWS-Elastic-Beanstalk'', category = ''Arch_Compute'', type = Architecture,
                  formats = [''png''], path = assets @ ''/Arch_Compute/64/AWS-Elastic-Beanstalk.png''\<rparr>
      = ''AWS-Elastic-Beanstal...''
   \<and> length (cell_title \<lparr>name = ''AWS-Elastic-Beanstalk'', category = ''Arch_Compute'', type = Architecture,
                  formats = [''png''], path = assets @ ''/Arch_Compute/64/AWS-Elastic-Beanstalk.png''\<rparr>) = 23"
  by (simp add: cell_title_def truncate_def)

end
